theory Spec2Isabelle
  imports Complex_Main "HOL-Library.Char_ord" "HOL-Library.List_Lexorder"
begin

section \<open>Data model of the load balancer\<close>

text \<open>
  The engine lives in \<^verbatim>\<open>load-balancer-refactored.py\<close> (classes \<^verbatim>\<open>HealthChecker\<close> and
  \<^verbatim>\<open>LoadBalancer\<close>); \<^verbatim>\<open>load-balancer-app.py\<close> is the earlier, sequential version of the
  same service. Python floats (clock readings, latencies, scores) are modelled as exact
  reals, Python ints as \<open>int\<close>.
\<close>

subsection \<open>Scoring\<close>

text \<open>
  \<^verbatim>\<open>HealthChecker._calculate_score\<close>, lines 175-183. It stands before the records because
  its parameter has the name of a field of \<^verbatim>\<open>ServerHealth\<close>.
\<close>

definition calculate_score :: "real \<Rightarrow> real" where
  "calculate_score response_time =
     (if response_time < 100 then 100
      else if response_time < 500 then 100 - (response_time - 100) * 0.2
      else max 1 (100 - response_time * 0.1))"

subsection \<open>Exceptions\<close>

text \<open>Exceptions of the source that a function can let escape.\<close>

datatype exn = AttributeError | ValueError | KeyError | TypeError

subsection \<open>JSON values and their comparison in Python\<close>

text \<open>
  What \<^verbatim>\<open>response.json()\<close> can return, and so what the upstream can put under \<^verbatim>\<open>"status"\<close>
  and \<^verbatim>\<open>"score"\<close>: \<^verbatim>\<open>None\<close>, a bool, a number (an int or a float; the decoder also accepts
  \<^verbatim>\<open>NaN\<close>, \<^verbatim>\<open>Infinity\<close> and \<^verbatim>\<open>-Infinity\<close>), a string, a list, or a dict, given by its items
  (the keys of a dict are distinct).
\<close>

datatype json =
    JNull
  | JBool bool
  | JNumber real
  | JNaN
  | JInfinity
  | JNegInfinity
  | JString string
  | JArray "json list"
  | JObject "(string \<times> json) list"

text \<open>The numbers of Python: bools count as 0 and 1.\<close>

datatype py_number = Finite real | PlusInf | MinusInf | NotANumber

fun as_number :: "json \<Rightarrow> py_number option" where
  "as_number (JBool b) = Some (Finite (if b then 1 else 0))"
| "as_number (JNumber r) = Some (Finite r)"
| "as_number JNaN = Some NotANumber"
| "as_number JInfinity = Some PlusInf"
| "as_number JNegInfinity = Some MinusInf"
| "as_number _ = None"

fun number_eq :: "py_number \<Rightarrow> py_number \<Rightarrow> bool" where
  "number_eq (Finite a) (Finite b) = (a = b)"
| "number_eq PlusInf PlusInf = True"
| "number_eq MinusInf MinusInf = True"
| "number_eq _ _ = False"

fun number_gt :: "py_number \<Rightarrow> py_number \<Rightarrow> bool" where
  "number_gt NotANumber _ = False"
| "number_gt _ NotANumber = False"
| "number_gt (Finite a) (Finite b) = (a > b)"
| "number_gt PlusInf PlusInf = False"
| "number_gt PlusInf _ = True"
| "number_gt _ PlusInf = False"
| "number_gt MinusInf _ = False"
| "number_gt (Finite a) MinusInf = True"

text \<open>
  Python's \<^verbatim>\<open>==\<close> on these values: it never raises; numbers are equal by value (and
  \<^verbatim>\<open>NaN\<close> equals nothing), strings and lists by content, dicts when they have the same
  keys with equal values; values of different kinds are unequal.
\<close>

fun py_eq :: "json \<Rightarrow> json \<Rightarrow> bool" where
  "py_eq JNull JNull = True"
| "py_eq (JString a) (JString b) = (a = b)"
| "py_eq (JArray a) (JArray b) = list_all2 py_eq a b"
| "py_eq (JObject a) (JObject b) =
     (length a = length b \<and>
      list_all (\<lambda>(k, v). case map_of b k of None \<Rightarrow> False | Some w \<Rightarrow> py_eq v w) a)"
| "py_eq a b =
     (case (as_number a, as_number b) of
        (Some x, Some y) \<Rightarrow> number_eq x y
      | _ \<Rightarrow> False)"

text \<open>
  Python's \<^verbatim>\<open>>\<close> on these values: numbers by value (false when either is \<^verbatim>\<open>NaN\<close>), strings
  in lexicographic order, lists by the first pair of unequal elements or else by length;
  \<^verbatim>\<open>None\<close>, dicts and values of different kinds raise \<^verbatim>\<open>TypeError\<close>.
\<close>

fun py_gt :: "json \<Rightarrow> json \<Rightarrow> exn + bool"
  and list_gt :: "json list \<Rightarrow> json list \<Rightarrow> exn + bool" where
  "py_gt (JString a) (JString b) = Inr (b < a)"
| "py_gt (JArray a) (JArray b) = list_gt a b"
| "py_gt a b =
     (case (as_number a, as_number b) of
        (Some x, Some y) \<Rightarrow> Inr (number_gt x y)
      | _ \<Rightarrow> Inl TypeError)"
| "list_gt [] [] = Inr False"
| "list_gt (x # xs) [] = Inr True"
| "list_gt [] (y # ys) = Inr False"
| "list_gt (x # xs) (y # ys) = (if py_eq x y then list_gt xs ys else py_gt x y)"

subsection \<open>Records\<close>

datatype HealthStatus = HEALTHY | UNHEALTHY | ERROR

record ServerConfig =
  name :: string
  url :: string
  weight :: int

text \<open>
  \<^verbatim>\<open>ServerHealth\<close>: its fields \<^verbatim>\<open>name\<close> and \<^verbatim>\<open>url\<close> are \<open>sh_name\<close> and \<open>sh_url\<close> here, since
  a record field is a constant of the theory. \<^verbatim>\<open>last_checked\<close> is the instant that
  \<^verbatim>\<open>datetime.now()\<close> read when the record was constructed (the source keeps its ISO text).
  The type of the score is a parameter: the class declares \<^verbatim>\<open>score: float\<close>, and Python
  stores whatever the constructor is given, so the records that \<^verbatim>\<open>check_server\<close> builds
  are \<open>json ServerHealth\<close>, and \<open>real ServerHealth\<close> are the records as declared.
\<close>

record 'v ServerHealth =
  sh_name :: string
  sh_url :: string
  health :: HealthStatus
  response_time :: "real option"
  score :: 'v
  status_code :: "int option"
  error :: "string option"
  last_checked :: real

section \<open>The outside world of one probe\<close>

text \<open>
  What \<^verbatim>\<open>response.json()\<close> gives on a response: it raises \<^verbatim>\<open>ValueError\<close> (with the text
  carried here) when the body is not JSON; otherwise the body is a JSON object, represented
  by the two entries the code reads, \<^verbatim>\<open>"status"\<close> and \<^verbatim>\<open>"score"\<close>, each absent or present
  with any JSON value, or some other JSON value (a list, a string, a number, \<^verbatim>\<open>null\<close>),
  which carries the text of the \<^verbatim>\<open>TypeError\<close> that subscripting it with a key raises.
\<close>

datatype body =
    Undecodable string
  | JsonObject "json option" "json option"
  | JsonOther string

text \<open>
  What the network answers to one request: \<^verbatim>\<open>requests\<close> refuses the request before it
  connects (a URL without or with an unknown scheme, or one that cannot be parsed: a
  \<^verbatim>\<open>RequestException\<close>, with its text); the transport fails (connection refused, timeout,
  DNS or TLS failure, retries exhausted: a \<^verbatim>\<open>RequestException\<close>, with its text); or a
  response arrives, with its status code and body.
\<close>

datatype reply = InvalidRequest string | RequestException string | Response int body

text \<open>
  Everything one call of \<^verbatim>\<open>check_server\<close> reads from outside, in the order of the reads:
  the clock in \<^verbatim>\<open>_is_cache_valid\<close>, the clock before the request, the reply, the clock
  after it, the clock of the record's \<^verbatim>\<open>last_checked\<close>, the clock of the cache update.
\<close>

record probe_io =
  t_check :: real
  t_start :: real
  reply :: reply
  t_end :: real
  t_made :: real
  t_store :: real

text \<open>
  The outcome of \<^verbatim>\<open>session.get(url, timeout=t, ...)\<close>. Once \<^verbatim>\<open>requests\<close> has accepted the
  request, its adapter builds the \<^verbatim>\<open>Timeout\<close> of \<^verbatim>\<open>urllib3\<close> from \<open>t\<close> before it connects,
  and that raises a plain \<^verbatim>\<open>ValueError\<close>, no \<^verbatim>\<open>RequestException\<close>, when \<open>t\<close> is zero or
  negative. Otherwise the outcome is what the network answers.
\<close>

definition session_get :: "int \<Rightarrow> probe_io \<Rightarrow> exn + reply" where
  "session_get timeout_arg io =
     (case reply io of
        InvalidRequest e \<Rightarrow> Inr (InvalidRequest e)
      | RequestException e \<Rightarrow>
          if timeout_arg \<le> 0 then Inl ValueError else Inr (RequestException e)
      | Response code content \<Rightarrow>
          if timeout_arg \<le> 0 then Inl ValueError else Inr (Response code content))"

section \<open>HealthChecker\<close>

text \<open>
  The state of a \<^verbatim>\<open>HealthChecker\<close>. The cache is keyed by the server's URL. The session
  is represented by its retry limit and by \<open>issued\<close>, the URLs that \<^verbatim>\<open>session.get\<close> has
  been called with so far; the executor by its worker limit.
\<close>

record HealthChecker =
  timeout :: int
  cache_ttl :: int
  cache :: "string \<rightharpoonup> (json ServerHealth \<times> real)"
  max_retries :: int
  max_workers :: nat
  issued :: "string list"

text \<open>\<^verbatim>\<open>HealthChecker.__init__\<close>, lines 76-81: no argument is checked, nothing raises.\<close>

definition HealthChecker_init :: "int \<Rightarrow> int \<Rightarrow> int \<Rightarrow> exn + HealthChecker" where
  "HealthChecker_init timeout_arg max_retries_arg cache_ttl_arg =
     Inr \<lparr>timeout = timeout_arg, cache_ttl = cache_ttl_arg, cache = Map.empty,
          max_retries = max_retries_arg, max_workers = 10, issued = []\<rparr>"

text \<open>\<^verbatim>\<open>HealthChecker._is_cache_valid\<close>, lines 100-105; \<open>now\<close> is the reading of \<^verbatim>\<open>time.time()\<close>.\<close>

definition is_cache_valid :: "HealthChecker \<Rightarrow> string \<Rightarrow> real \<Rightarrow> bool" where
  "is_cache_valid hc server_url now =
     (case cache hc server_url of
        None \<Rightarrow> False
      | Some (_, timestamp) \<Rightarrow> now - timestamp < real_of_int (cache_ttl hc))"

text \<open>
  Python's \<^verbatim>\<open>round(x, 2)\<close>: to the nearest hundredth, a tie going to the even neighbour.
\<close>

definition round2 :: "real \<Rightarrow> real" where
  "round2 x =
     (let y = x * 100; f = \<lfloor>y\<rfloor>; d = y - of_int f
      in (if d < 1 / 2 then of_int f
          else if d > 1 / 2 then of_int f + 1
          else if even f then of_int f else of_int f + 1) / 100)"

text \<open>
  The record of a failed request, lines 156-163, and the \<^verbatim>\<open>try\<close> block of \<^verbatim>\<open>check_server\<close>,
  lines 113-163, from the call of \<^verbatim>\<open>session.get\<close> on: the record built for each outcome.
  The \<^verbatim>\<open>ValueError\<close> of the call is no \<^verbatim>\<open>RequestException\<close> and is raised outside the inner
  \<^verbatim>\<open>try\<close>, and \<^verbatim>\<open>health_data.get\<close> on a JSON value that is not an object raises
  \<^verbatim>\<open>AttributeError\<close>: neither \<^verbatim>\<open>except\<close> clause catches them. The score of a Healthy
  record is whatever the object holds under \<^verbatim>\<open>"score"\<close>.
\<close>

definition error_record :: "ServerConfig \<Rightarrow> string \<Rightarrow> probe_io \<Rightarrow> json ServerHealth" where
  "error_record server e io =
     \<lparr>sh_name = name server, sh_url = url server, health = ERROR,
      response_time = None, score = JNumber 0, status_code = None, error = Some e,
      last_checked = t_made io\<rparr>"

definition probe :: "int \<Rightarrow> ServerConfig \<Rightarrow> real \<Rightarrow> probe_io \<Rightarrow> exn + json ServerHealth" where
  "probe timeout_arg server start_time io =
     (case session_get timeout_arg io of
        Inl e \<Rightarrow> Inl e
      | Inr (InvalidRequest e) \<Rightarrow> Inr (error_record server e io)
      | Inr (RequestException e) \<Rightarrow> Inr (error_record server e io)
      | Inr (Response code content) \<Rightarrow>
          (let ms = (t_end io - start_time) * 1000 in
           if code = 200 then
             (case content of
                Undecodable _ \<Rightarrow>
                  Inr \<lparr>sh_name = name server, sh_url = url server, health = UNHEALTHY,
                       response_time = Some (round2 ms), score = JNumber 0,
                       status_code = Some code,
                       error = Some ''Invalid health response'', last_checked = t_made io\<rparr>
              | JsonObject _ upstream_score \<Rightarrow>
                  Inr \<lparr>sh_name = name server, sh_url = url server, health = HEALTHY,
                       response_time = Some (round2 ms),
                       score = (case upstream_score of
                                  Some v \<Rightarrow> v
                                | None \<Rightarrow> JNumber (calculate_score ms)),
                       status_code = Some code, error = None, last_checked = t_made io\<rparr>
              | JsonOther _ \<Rightarrow> Inl AttributeError)
           else
             Inr \<lparr>sh_name = name server, sh_url = url server, health = UNHEALTHY,
                  response_time = Some (round2 ms), score = JNumber 0, status_code = Some code,
                  error = None, last_checked = t_made io\<rparr>))"

text \<open>
  \<^verbatim>\<open>HealthChecker.check_server\<close>, lines 107-167. A valid cache entry is returned as it is;
  otherwise \<^verbatim>\<open>session.get\<close> is called with the checker's timeout, and the record of the
  probe is stored under the URL with the clock reading of the store. An exception leaves
  before the store.
\<close>

definition check_server ::
  "ServerConfig \<Rightarrow> probe_io \<Rightarrow> HealthChecker \<Rightarrow> (exn + json ServerHealth) \<times> HealthChecker" where
  "check_server server io hc =
     (if is_cache_valid hc (url server) (t_check io) then
        (case cache hc (url server) of
           None \<Rightarrow> (Inl KeyError, hc)
         | Some (h, _) \<Rightarrow> (Inr h, hc))
      else
        (let hc1 = hc\<lparr>issued := issued hc @ [url server @ ''/health'']\<rparr> in
         case probe (timeout hc) server (t_start io) io of
           Inl e \<Rightarrow> (Inl e, hc1)
         | Inr h \<Rightarrow> (Inr h, hc1\<lparr>cache := (cache hc1)(url server \<mapsto> (h, t_store io))\<rparr>)))"

section \<open>The thread pool\<close>

text \<open>
  \<^verbatim>\<open>check_all_servers_parallel\<close>, lines 169-173, submits one \<^verbatim>\<open>check_server\<close> call per
  server to the executor and then reads the futures in the order of submission. The
  calls share the cache and nothing else. A call reads the cache at its start (the
  membership test, the timestamp and the record, taken as one step: an entry is only ever
  replaced, never removed) and writes it at its end. A task is therefore queued, in
  flight (between the two, holding its \<^verbatim>\<open>start_time\<close>), or done with the outcome its future
  holds. An event lets one task take its next step and gives it what it reads from
  outside; a schedule is the list of events, in the order in which the threads ran. The
  worker limit only excludes schedules, and the properties of the pool are proved for
  all of them.
\<close>

datatype task = Queued | InFlight real | Done "exn + json ServerHealth"

type_synonym event = "nat \<times> probe_io"

fun step :: "ServerConfig list \<Rightarrow> event \<Rightarrow> HealthChecker \<times> task list \<Rightarrow> HealthChecker \<times> task list" where
  "step servers (i, io) (hc, tasks) =
     (if i < length tasks \<and> i < length servers then
        (let server = servers ! i in
         case tasks ! i of
           Queued \<Rightarrow>
             (if is_cache_valid hc (url server) (t_check io) then
                (case cache hc (url server) of
                   None \<Rightarrow> (hc, tasks[i := Done (Inl KeyError)])
                 | Some (h, _) \<Rightarrow> (hc, tasks[i := Done (Inr h)]))
              else (hc\<lparr>issued := issued hc @ [url server @ ''/health'']\<rparr>,
                    tasks[i := InFlight (t_start io)]))
         | InFlight start_time \<Rightarrow>
             (case probe (timeout hc) server start_time io of
                Inl e \<Rightarrow> (hc, tasks[i := Done (Inl e)])
              | Inr h \<Rightarrow> (hc\<lparr>cache := (cache hc)(url server \<mapsto> (h, t_store io))\<rparr>,
                          tasks[i := Done (Inr h)]))
         | Done r \<Rightarrow> (hc, tasks))
      else (hc, tasks))"

definition run_pool ::
  "ServerConfig list \<Rightarrow> event list \<Rightarrow> HealthChecker \<Rightarrow> HealthChecker \<times> task list" where
  "run_pool servers schedule hc = fold (step servers) schedule (hc, replicate (length servers) Queued)"

text \<open>
  \<^verbatim>\<open>[future.result() for future in futures]\<close>: the futures are read in order; the first one
  that holds an exception raises it; one that never completes blocks the caller (\<open>None\<close>).
\<close>

fun collect :: "task list \<Rightarrow> (exn + json ServerHealth list) option" where
  "collect [] = Some (Inr [])"
| "collect (Done (Inl e) # ts) = Some (Inl e)"
| "collect (Done (Inr h) # ts) =
     (case collect ts of
        None \<Rightarrow> None
      | Some (Inl e) \<Rightarrow> Some (Inl e)
      | Some (Inr hs) \<Rightarrow> Some (Inr (h # hs)))"
| "collect (_ # ts) = None"

definition check_all_servers_parallel ::
  "ServerConfig list \<Rightarrow> event list \<Rightarrow> HealthChecker \<Rightarrow>
     (exn + json ServerHealth list) option \<times> HealthChecker" where
  "check_all_servers_parallel servers schedule hc =
     (case run_pool servers schedule hc of (hc', tasks) \<Rightarrow> (collect tasks, hc'))"

text \<open>A schedule lets every task run to its end when it steps each of them at least twice.\<close>

definition completes :: "nat \<Rightarrow> event list \<Rightarrow> bool" where
  "completes n schedule = list_all (\<lambda>i. 2 \<le> count_list (map fst schedule) i) [0..<n]"

text \<open>How far a task has come.\<close>

fun rank :: "task \<Rightarrow> nat" where
  "rank Queued = 0"
| "rank (InFlight _) = 1"
| "rank (Done _) = 2"

text \<open>A reply of status 200 with a JSON body that is no object.\<close>

definition non_object_body :: "probe_io \<Rightarrow> bool" where
  "non_object_body io =
     (case reply io of
        Response code (JsonOther _) \<Rightarrow> code = 200
      | _ \<Rightarrow> False)"

text \<open>
  A record describes a server when it carries the server's name and URL. A cache
  describes a registry when each entry stored under the URL of a member describes that
  member; a task list does when each finished task holds a record of its own server.
\<close>

definition describes :: "ServerConfig \<Rightarrow> json ServerHealth \<Rightarrow> bool" where
  "describes server h = (sh_name h = name server \<and> sh_url h = url server)"

definition cache_describes ::
  "ServerConfig list \<Rightarrow> (string \<rightharpoonup> (json ServerHealth \<times> real)) \<Rightarrow> bool" where
  "cache_describes registry c =
     list_all (\<lambda>server. case c (url server) of None \<Rightarrow> True | Some (h, _) \<Rightarrow> describes server h)
       registry"

definition tasks_describe :: "ServerConfig list \<Rightarrow> task list \<Rightarrow> bool" where
  "tasks_describe registry tasks =
     (length tasks = length registry \<and>
      list_all (\<lambda>(server, t). case t of Done (Inr h) \<Rightarrow> describes server h | _ \<Rightarrow> True)
        (zip registry tasks))"

text \<open>No task holds an exception.\<close>

definition no_exn :: "task list \<Rightarrow> bool" where
  "no_exn tasks = (\<forall>t\<in>set tasks. \<forall>e. t \<noteq> Done (Inl e))"

section \<open>Selection\<close>

text \<open>
  Python's builtin \<^verbatim>\<open>max(iterable, key=f)\<close>: it raises \<^verbatim>\<open>ValueError\<close> on an empty
  iterable; otherwise it starts from the first item and replaces the current maximum
  only by an item whose key is greater, by \<^verbatim>\<open>>\<close>; an exception of the comparison leaves
  \<^verbatim>\<open>max\<close>. First on keys that are any JSON values, as the records of \<^verbatim>\<open>check_server\<close> hold
  them.
\<close>

fun max_loop_py :: "('a \<Rightarrow> json) \<Rightarrow> 'a \<Rightarrow> 'a list \<Rightarrow> exn + 'a" where
  "max_loop_py key best [] = Inr best"
| "max_loop_py key best (x # xs) =
     (case py_gt (key x) (key best) of
        Inl e \<Rightarrow> Inl e
      | Inr bigger \<Rightarrow> max_loop_py key (if bigger then x else best) xs)"

definition max_py :: "('a \<Rightarrow> json) \<Rightarrow> 'a list \<Rightarrow> exn + 'a" where
  "max_py key xs = (case xs of [] \<Rightarrow> Inl ValueError | x # rest \<Rightarrow> max_loop_py key x rest)"

text \<open>
  The body of \<^verbatim>\<open>LoadBalancer.get_best_server\<close> after the snapshot has been taken
  (lines 205-214), on the records as \<^verbatim>\<open>check_server\<close> builds them: \<open>all_servers\<close> is the list
  \<^verbatim>\<open>get_all_server_health()\<close> returned.
\<close>

definition best_server_any :: "json ServerHealth list \<Rightarrow> exn + json ServerHealth option" where
  "best_server_any all_servers =
     (let healthy_servers = filter (\<lambda>s. health s = HEALTHY) all_servers
      in if healthy_servers = [] then Inr None
         else (case max_py score healthy_servers of
                 Inl e \<Rightarrow> Inl e
               | Inr s \<Rightarrow> Inr (Some s)))"

text \<open>
  The same on keys that are numbers, where \<^verbatim>\<open>>\<close> is the order of the numbers and never
  raises: \<^verbatim>\<open>max\<close>, and the body of \<^verbatim>\<open>get_best_server\<close> on records whose scores are numbers,
  as the class declares them.
\<close>

fun max_loop :: "('a \<Rightarrow> real) \<Rightarrow> 'a \<Rightarrow> 'a list \<Rightarrow> 'a" where
  "max_loop key best [] = best"
| "max_loop key best (x # xs) = max_loop key (if key x > key best then x else best) xs"

definition max_key :: "('a \<Rightarrow> real) \<Rightarrow> 'a list \<Rightarrow> exn + 'a" where
  "max_key key xs = (case xs of [] \<Rightarrow> Inl ValueError | x # rest \<Rightarrow> Inr (max_loop key x rest))"

definition best_server :: "real ServerHealth list \<Rightarrow> exn + real ServerHealth option" where
  "best_server all_servers =
     (let healthy_servers = filter (\<lambda>s. health s = HEALTHY) all_servers
      in if healthy_servers = [] then Inr None
         else (case max_key score healthy_servers of
                 Inl e \<Rightarrow> Inl e
               | Inr s \<Rightarrow> Inr (Some s)))"

text \<open>
  A record whose score is a finite number, and the record as declared that it stands
  for.
\<close>

definition number_of :: "json \<Rightarrow> real" where
  "number_of v = (case as_number v of Some (Finite r) \<Rightarrow> r | _ \<Rightarrow> 0)"

definition finite_score :: "json \<Rightarrow> bool" where
  "finite_score v = (case as_number v of Some (Finite _) \<Rightarrow> True | _ \<Rightarrow> False)"

definition typed :: "json ServerHealth \<Rightarrow> real ServerHealth" where
  "typed h =
     \<lparr>sh_name = sh_name h, sh_url = sh_url h, health = health h,
      response_time = response_time h, score = number_of (score h),
      status_code = status_code h, error = error h, last_checked = last_checked h\<rparr>"

section \<open>LoadBalancer and construction\<close>

record LoadBalancer =
  servers :: "ServerConfig list"
  health_checker :: HealthChecker

text \<open>
  The constructor the \<^verbatim>\<open>@dataclass\<close> decorator generates for \<^verbatim>\<open>ServerConfig\<close> (lines 36-44;
  there is no \<^verbatim>\<open>__post_init__\<close>), and \<^verbatim>\<open>LoadBalancer.__init__\<close> (lines 194-196): both
  store their arguments.
\<close>

definition ServerConfig_init :: "string \<Rightarrow> string \<Rightarrow> int \<Rightarrow> exn + ServerConfig" where
  "ServerConfig_init n u w = Inr \<lparr>name = n, url = u, weight = w\<rparr>"

definition LoadBalancer_init :: "ServerConfig list \<Rightarrow> HealthChecker \<Rightarrow> exn + LoadBalancer" where
  "LoadBalancer_init registry hc = Inr \<lparr>servers = registry, health_checker = hc\<rparr>"

text \<open>
  The module's construction sequence, lines 222-235, for any server list and any
  arguments of the checker: the \<^verbatim>\<open>ServerConfig\<close> objects in order, then the checker, then
  the balancer. The first constructor that raises ends it.
\<close>

fun make_servers :: "(string \<times> string \<times> int) list \<Rightarrow> exn + ServerConfig list" where
  "make_servers [] = Inr []"
| "make_servers ((n, u, w) # rest) =
     (case ServerConfig_init n u w of
        Inl e \<Rightarrow> Inl e
      | Inr c \<Rightarrow> (case make_servers rest of Inl e \<Rightarrow> Inl e | Inr cs \<Rightarrow> Inr (c # cs)))"

definition build_engine ::
  "(string \<times> string \<times> int) list \<Rightarrow> int \<Rightarrow> int \<Rightarrow> int \<Rightarrow> exn + LoadBalancer" where
  "build_engine entries timeout_arg max_retries_arg cache_ttl_arg =
     (case make_servers entries of
        Inl e \<Rightarrow> Inl e
      | Inr registry \<Rightarrow>
          (case HealthChecker_init timeout_arg max_retries_arg cache_ttl_arg of
             Inl e \<Rightarrow> Inl e
           | Inr hc \<Rightarrow> LoadBalancer_init registry hc))"

text \<open>The server list both files configure (\<^verbatim>\<open>weight\<close> is 1 by default).\<close>

definition SERVERS :: "ServerConfig list" where
  "SERVERS =
     [\<lparr>name = ''server1'', url = ''https://landing1.aimachengine.com'', weight = 1\<rparr>,
      \<lparr>name = ''server2'', url = ''https://go.aimachengine.com'', weight = 1\<rparr>,
      \<lparr>name = ''server3'', url = ''https://go1.aimachengine.com'', weight = 1\<rparr>,
      \<lparr>name = ''server4'', url = ''https://go2.aimachengine.com'', weight = 1\<rparr>,
      \<lparr>name = ''server5'', url = ''https://1.aimachengine.com'', weight = 1\<rparr>,
      \<lparr>name = ''server6'', url = ''https://2.aimachengine.com'', weight = 1\<rparr>,
      \<lparr>name = ''server7'', url = ''https://3.aimachengine.com'', weight = 1\<rparr>,
      \<lparr>name = ''server8'', url = ''https://4.aimachengine.com'', weight = 1\<rparr>]"

text \<open>\<^verbatim>\<open>LoadBalancer.get_all_server_health\<close> and \<^verbatim>\<open>LoadBalancer.get_best_server\<close>, lines 198-214.\<close>

definition get_all_server_health ::
  "LoadBalancer \<Rightarrow> event list \<Rightarrow> (exn + json ServerHealth list) option \<times> LoadBalancer" where
  "get_all_server_health lb schedule =
     (case check_all_servers_parallel (servers lb) schedule (health_checker lb) of
        (r, hc') \<Rightarrow> (r, lb\<lparr>health_checker := hc'\<rparr>))"

definition get_best_server ::
  "LoadBalancer \<Rightarrow> event list \<Rightarrow> (exn + json ServerHealth option) option \<times> LoadBalancer" where
  "get_best_server lb schedule =
     (case get_all_server_health lb schedule of
        (None, lb') \<Rightarrow> (None, lb')
      | (Some (Inl e), lb') \<Rightarrow> (Some (Inl e), lb')
      | (Some (Inr all_servers), lb') \<Rightarrow> (Some (best_server_any all_servers), lb'))"

section \<open>The earlier, sequential service\<close>

text \<open>
  \<^verbatim>\<open>load-balancer-app.py\<close> keeps a health record as a dict; a key that a branch leaves out
  is \<open>None\<close> here. On a 200 response its \<^verbatim>\<open>'health'\<close> and \<^verbatim>\<open>'score'\<close> are what the upstream
  sent as \<^verbatim>\<open>"status"\<close> and \<^verbatim>\<open>"score"\<close>, so their types are parameters: the dicts the code
  builds are \<open>(json, json) health_dict\<close>, and \<open>(string, real) health_dict\<close> are those whose
  status is a string and whose score is a number.
\<close>

record ('h, 'v) health_dict =
  d_name :: string
  d_url :: string
  d_health :: 'h
  d_response_time :: "real option"
  d_score :: 'v
  d_status_code :: "int option"
  d_error :: "string option"
  d_last_checked :: real

text \<open>The \<^verbatim>\<open>except Exception\<close> branch of \<^verbatim>\<open>check_server_health\<close>, lines 53-62.\<close>

definition error_dict :: "ServerConfig \<Rightarrow> string \<Rightarrow> probe_io \<Rightarrow> (json, json) health_dict" where
  "error_dict server e io =
     \<lparr>d_name = name server, d_url = url server, d_health = JString ''error'',
      d_response_time = None, d_score = JNumber 0, d_status_code = None, d_error = Some e,
      d_last_checked = t_made io\<rparr>"

text \<open>
  \<^verbatim>\<open>check_server_health\<close>, lines 22-62. The timeout of \<^verbatim>\<open>requests.get\<close> is the constant 5,
  so the call yields what the network answers. Every exception of the \<^verbatim>\<open>try\<close> block ends
  in the \<^verbatim>\<open>except\<close> branch: the request's, the decoder's, the \<^verbatim>\<open>KeyError\<close> of a missing
  \<^verbatim>\<open>"status"\<close> (read first) or \<^verbatim>\<open>"score"\<close>, whose text is the quoted key, and the
  \<^verbatim>\<open>TypeError\<close> of a body that is not an object.
\<close>

definition check_server_health :: "ServerConfig \<Rightarrow> probe_io \<Rightarrow> (json, json) health_dict" where
  "check_server_health server io =
     (case reply io of
        InvalidRequest e \<Rightarrow> error_dict server e io
      | RequestException e \<Rightarrow> error_dict server e io
      | Response code content \<Rightarrow>
          (let ms = (t_end io - t_start io) * 1000 in
           if code = 200 then
             (case content of
                Undecodable e \<Rightarrow> error_dict server e io
              | JsonOther e \<Rightarrow> error_dict server e io
              | JsonObject None _ \<Rightarrow> error_dict server (CHR 0x27 # ''status'' @ [CHR 0x27]) io
              | JsonObject (Some upstream_status) None \<Rightarrow>
                  error_dict server (CHR 0x27 # ''score'' @ [CHR 0x27]) io
              | JsonObject (Some upstream_status) (Some upstream_score) \<Rightarrow>
                  \<lparr>d_name = name server, d_url = url server, d_health = upstream_status,
                   d_response_time = Some (round2 ms), d_score = upstream_score,
                   d_status_code = Some code, d_error = None, d_last_checked = t_made io\<rparr>)
           else
             \<lparr>d_name = name server, d_url = url server, d_health = JString ''unhealthy'',
              d_response_time = Some (round2 ms), d_score = JNumber 0, d_status_code = Some code,
              d_error = None, d_last_checked = t_made io\<rparr>))"

text \<open>
  \<^verbatim>\<open>get_all_server_health\<close> of the earlier service, lines 64-70: one probe after the other,
  the \<open>i\<close>-th one reading \<open>ios i\<close>.
\<close>

definition get_all_server_health_app :: "(nat \<Rightarrow> probe_io) \<Rightarrow> (json, json) health_dict list" where
  "get_all_server_health_app ios =
     map (\<lambda>i. check_server_health (SERVERS ! i) (ios i)) [0..<length SERVERS]"

text \<open>
  The body of \<^verbatim>\<open>get_highest_score_server\<close> after the snapshot, lines 75-80, on the dicts
  as the code builds them (\<^verbatim>\<open>== 'healthy'\<close> holds of the string \<^verbatim>\<open>'healthy'\<close> alone), and on
  dicts whose status is a string and whose score is a number.
\<close>

definition highest_score_server_any ::
  "(json, json) health_dict list \<Rightarrow> exn + (json, json) health_dict option" where
  "highest_score_server_any all_servers =
     (let healthy_servers = filter (\<lambda>s. d_health s = JString ''healthy'') all_servers
      in if healthy_servers = [] then Inr None
         else (case max_py d_score healthy_servers of
                 Inl e \<Rightarrow> Inl e
               | Inr s \<Rightarrow> Inr (Some s)))"

definition highest_score_server ::
  "(string, real) health_dict list \<Rightarrow> exn + (string, real) health_dict option" where
  "highest_score_server all_servers =
     (let healthy_servers = filter (\<lambda>s. d_health s = ''healthy'') all_servers
      in if healthy_servers = [] then Inr None
         else (case max_key d_score healthy_servers of
                 Inl e \<Rightarrow> Inl e
               | Inr s \<Rightarrow> Inr (Some s)))"

text \<open>
  A dict as the code builds it, read as one whose status is a string and whose score is a
  number: a status that is no string is not \<^verbatim>\<open>'healthy'\<close>.
\<close>

definition typed_dict :: "(json, json) health_dict \<Rightarrow> (string, real) health_dict" where
  "typed_dict d =
     \<lparr>d_name = d_name d, d_url = d_url d,
      d_health = (case d_health d of JString s \<Rightarrow> s | _ \<Rightarrow> []),
      d_response_time = d_response_time d, d_score = number_of (d_score d),
      d_status_code = d_status_code d, d_error = d_error d,
      d_last_checked = d_last_checked d\<rparr>"

definition get_highest_score_server ::
  "(nat \<Rightarrow> probe_io) \<Rightarrow> exn + (json, json) health_dict option" where
  "get_highest_score_server ios = highest_score_server_any (get_all_server_health_app ios)"

section \<open>Sample inputs\<close>

definition srv :: "string \<Rightarrow> string \<Rightarrow> ServerConfig" where
  "srv n u = \<lparr>name = n, url = u, weight = 1\<rparr>"

definition fresh_checker :: HealthChecker where
  "fresh_checker = \<lparr>timeout = 3, cache_ttl = 10, cache = Map.empty, max_retries = 2,
                     max_workers = 10, issued = []\<rparr>"

text \<open>A probe started at time \<open>t\<close> whose reply \<open>r\<close> arrives after 50 ms.\<close>

definition io_at :: "real \<Rightarrow> reply \<Rightarrow> probe_io" where
  "io_at t r = \<lparr>t_check = t, t_start = t, reply = r, t_end = t + 0.05, t_made = t + 0.05,
               t_store = t + 0.05\<rparr>"

text \<open>
  A 200 response with the object \<^verbatim>\<open>{"status": "ok", "score": v}\<close>; a 200 response whose body
  is the JSON list \<^verbatim>\<open>[]\<close>; a connection that times out.
\<close>

definition ok :: "real \<Rightarrow> reply" where
  "ok v = Response 200 (JsonObject (Some (JString ''ok'')) (Some (JNumber v)))"

definition list_body :: reply where
  "list_body = Response 200 (JsonOther ''list indices must be integers or slices, not str'')"

definition timed_out :: reply where
  "timed_out = RequestException ''timed out''"

text \<open>
  A registry of four with distinct names and URLs, and three schedules on which all four
  probes start and then finish, the third and the fourth first. On the first the second
  server times out and the fourth answers 404; on the second all answer, the third with
  a list; on the third the first times out and the second answers with a list.
\<close>

definition registry4 :: "ServerConfig list" where
  "registry4 = [srv ''s1'' ''http://h1'', srv ''s2'' ''http://h2'',
                srv ''s3'' ''http://h3'', srv ''s4'' ''http://h4'']"

definition schedule_of :: "reply \<Rightarrow> reply \<Rightarrow> reply \<Rightarrow> reply \<Rightarrow> event list" where
  "schedule_of r1 r2 r3 r4 =
     [(0, io_at 0 r1), (1, io_at 0 r2), (2, io_at 0 r3), (3, io_at 0 r4),
      (2, io_at 0 r3), (3, io_at 0 r4), (0, io_at 0 r1), (1, io_at 0 r2)]"

definition schedule4 :: "event list" where
  "schedule4 = schedule_of (ok 80) timed_out (ok 95) (Response 404 (Undecodable ''not found''))"

definition schedule_list :: "event list" where
  "schedule_list = schedule_of (ok 80) (ok 70) list_body (ok 95)"

definition schedule_timeout_list :: "event list" where
  "schedule_timeout_list = schedule_of timed_out list_body (ok 95) (ok 80)"

definition rec_of :: "string \<Rightarrow> HealthStatus \<Rightarrow> 'v \<Rightarrow> 'v ServerHealth" where
  "rec_of n st sc =
     \<lparr>sh_name = n, sh_url = ''http://'' @ n, health = st, response_time = Some 10,
      score = sc, status_code = Some 200, error = None, last_checked = 0\<rparr>"


section \<open>Properties of the selection\<close>
















text \<open>
  On records whose Healthy members carry finite numbers as scores, the selection on the
  records as built is the selection on the records as declared.
\<close>

lemma py_gt_finite:
  "finite_score a \<Longrightarrow> finite_score b \<Longrightarrow> py_gt a b = Inr (number_of a > number_of b)"
  by (cases a; cases b) (simp_all add: finite_score_def number_of_def)

lemma max_loop_py_finite:
  "\<forall>x\<in>set (b # xs). finite_score (key x) \<Longrightarrow>
   max_loop_py key b xs = Inr (max_loop (\<lambda>x. number_of (key x)) b xs)"
proof (induction xs arbitrary: b)
  case Nil
  show ?case by simp
next
  case (Cons x xs)
  have g: "py_gt (key x) (key b) = Inr (number_of (key x) > number_of (key b))"
    using Cons.prems by (simp add: py_gt_finite)
  let ?b' = "if number_of (key x) > number_of (key b) then x else b"
  have "\<forall>y\<in>set (?b' # xs). finite_score (key y)" using Cons.prems by simp
  then have "max_loop_py key ?b' xs = Inr (max_loop (\<lambda>x. number_of (key x)) ?b' xs)"
    by (rule Cons.IH)
  then show ?case using g by simp
qed

lemma max_loop_map: "max_loop key (f b) (map f xs) = f (max_loop (\<lambda>x. key (f x)) b xs)"
proof (induction xs arbitrary: b)
  case Nil
  show ?case by simp
next
  case (Cons x xs)
  have "max_loop key (f b) (map f (x # xs)) =
      max_loop key (f (if key (f x) > key (f b) then x else b)) (map f xs)"
    by simp
  also have "\<dots> = f (max_loop (\<lambda>x. key (f x)) (if key (f x) > key (f b) then x else b) xs)"
    by (rule Cons.IH)
  finally show ?case by simp
qed

lemma select_typed:
  assumes fin: "\<forall>x\<in>set xs. P x \<longrightarrow> finite_score (key x)"
    and q: "\<And>x. Q (f x) = P x"
    and k: "\<And>x. key' (f x) = number_of (key x)"
  shows "(if filter Q (map f xs) = [] then Inr None
          else (case max_key key' (filter Q (map f xs)) of
                  Inl e \<Rightarrow> Inl e | Inr s \<Rightarrow> Inr (Some s))) =
         map_sum id (map_option f)
           (if filter P xs = [] then Inr None
            else (case max_py key (filter P xs) of
                    Inl e \<Rightarrow> Inl e | Inr s \<Rightarrow> Inr (Some s)))"
proof -
  have fm: "filter Q (map f xs) = map f (filter P xs)"
    by (simp add: filter_map comp_def q)
  show ?thesis
  proof (cases "filter P xs")
    case Nil
    then show ?thesis using fm by simp
  next
    case (Cons b rest)
    have "set (b # rest) \<subseteq> {x \<in> set xs. P x}" using Cons [symmetric] by auto
    then have "\<forall>x\<in>set (b # rest). finite_score (key x)" using fin by auto
    then have 1: "max_loop_py key b rest = Inr (max_loop (\<lambda>x. number_of (key x)) b rest)"
      by (rule max_loop_py_finite)
    have 2: "max_loop key' (f b) (map f rest) = f (max_loop (\<lambda>x. number_of (key x)) b rest)"
      using max_loop_map [of key' f b rest] by (simp add: k)
    show ?thesis using fm Cons 1 2 by (simp add: max_key_def max_py_def)
  qed
qed

lemma best_server_any_typed:
  assumes "\<forall>h\<in>set snapshot. health h = HEALTHY \<longrightarrow> finite_score (score h)"
  shows "best_server (map typed snapshot) = map_sum id (map_option typed) (best_server_any snapshot)"
  unfolding best_server_def best_server_any_def Let_def
  by (rule select_typed [OF assms]) (simp_all add: typed_def)

lemma highest_score_server_any_typed:
  assumes "\<forall>d\<in>set dicts. d_health d = JString ''healthy'' \<longrightarrow> finite_score (d_score d)"
  shows "highest_score_server (map typed_dict dicts) =
         map_sum id (map_option typed_dict) (highest_score_server_any dicts)"
  unfolding highest_score_server_def highest_score_server_any_def Let_def
proof (rule select_typed [OF assms])
  show "(d_health (typed_dict x) = ''healthy'') = (d_health x = JString ''healthy'')" for x
    by (cases "d_health x") (simp_all add: typed_dict_def)
  show "d_score (typed_dict x) = number_of (d_score x)" for x
    by (simp add: typed_dict_def)
qed







section \<open>Properties of the scoring\<close>

lemma calculate_score_mono_below_500:
  "ms1 \<le> ms2 \<Longrightarrow> ms2 < 500 \<Longrightarrow> calculate_score ms2 \<le> calculate_score ms1"
  by (simp add: calculate_score_def)

lemma calculate_score_mono_from_500:
  "500 \<le> ms1 \<Longrightarrow> ms1 \<le> ms2 \<Longrightarrow> calculate_score ms2 \<le> calculate_score ms1"
  by (simp add: calculate_score_def max_def)


text \<open>
  Claim C1. The score is meant never to rise with the latency (the docstring of
  \<^verbatim>\<open>_calculate_score\<close>: lower is better). It does rise between the second and the third
  band: 499 ms scores 20.2 and 500 ms scores 50. Within the first two bands, and within
  the third, it never rises (the two lemmas above).
\<close>

theorem calculate_score_rises_at_500:
  "(499::real) \<le> 500 \<and> calculate_score 499 = 101 / 5 \<and> calculate_score 500 = 50 \<and>
   \<not> calculate_score 500 \<le> calculate_score 499"
  by (simp add: calculate_score_def)


text \<open>
  Claim C6. For every response time the score lies between 1 and 100: it is 100 below
  100 ms, \<open>100 - (ms - 100) * 0.2\<close> from 100 ms to below 500 ms, and
  \<open>max 1 (100 - ms * 0.1)\<close> from 500 ms on.
\<close>

theorem calculate_score_bounds:
  "1 \<le> calculate_score ms \<and> calculate_score ms \<le> 100 \<and>
   (ms < 100 \<longrightarrow> calculate_score ms = 100) \<and>
   (100 \<le> ms \<and> ms < 500 \<longrightarrow> calculate_score ms = 100 - (ms - 100) * 0.2) \<and>
   (500 \<le> ms \<longrightarrow> calculate_score ms = max 1 (100 - ms * 0.1))"
  by (simp add: calculate_score_def max_def)

theorem calculate_score_bounds_witness:
  "(50::real) < 100 \<and> calculate_score 50 = 100 \<and>
   (100::real) \<le> 300 \<and> (300::real) < 500 \<and> calculate_score 300 = 60 \<and>
   (500::real) \<le> 700 \<and> calculate_score 700 = 30 \<and>
   (500::real) \<le> 2000 \<and> calculate_score 2000 = 1"
  using calculate_score_bounds [of 50] calculate_score_bounds [of 300]
    calculate_score_bounds [of 700] calculate_score_bounds [of 2000]
  by simp


section \<open>Properties of the construction\<close>

lemma make_servers_total:
  "make_servers entries = Inr (map (\<lambda>(n, u, w). \<lparr>name = n, url = u, weight = w\<rparr>) entries)"
  by (induction entries) (auto simp: ServerConfig_init_def)


text \<open>
  Claim C3, as stated: constructing the engine raises an error on duplicate names, on
  an empty URL and on a timeout that is not positive. It does not: a configuration with
  all three is constructed.
\<close>

theorem construction_accepts_bad_configuration:
  "\<not> distinct (map fst [(''a'', [], 1), (''a'', [], 1 :: int)]) \<and>
   [] \<in> set (map (fst \<circ> snd) [(''a'', [], 1), (''a'', [], 1 :: int)]) \<and>
   (0 :: int) \<le> 0 \<and>
   build_engine [(''a'', [], 1), (''a'', [], 1)] 0 2 10 =
     Inr \<lparr>servers = [\<lparr>name = ''a'', url = [], weight = 1\<rparr>, \<lparr>name = ''a'', url = [], weight = 1\<rparr>],
          health_checker = \<lparr>timeout = 0, cache_ttl = 10, cache = Map.empty, max_retries = 2,
                            max_workers = 10, issued = []\<rparr>\<rparr>"
  by (simp add: build_engine_def ServerConfig_init_def HealthChecker_init_def LoadBalancer_init_def)


text \<open>
  Claim C3, amended. No constructor checks its arguments: for every server list, timeout,
  retry count and TTL the construction succeeds and yields a balancer that holds the
  servers as given, in order, and a checker that holds the timeout and the TTL as given,
  with an empty cache and no request issued.
\<close>

theorem construction_never_validates:
  "build_engine entries timeout_arg max_retries_arg cache_ttl_arg =
     Inr \<lparr>servers = map (\<lambda>(n, u, w). \<lparr>name = n, url = u, weight = w\<rparr>) entries,
          health_checker = \<lparr>timeout = timeout_arg, cache_ttl = cache_ttl_arg, cache = Map.empty,
                            max_retries = max_retries_arg, max_workers = 10, issued = []\<rparr>\<rparr>"
  by (simp add: build_engine_def make_servers_total HealthChecker_init_def LoadBalancer_init_def)


section \<open>Properties of one health check\<close>

lemma check_server_hit:
  "cache hc (url server) = Some (h, ts) \<Longrightarrow> t_check io - ts < real_of_int (cache_ttl hc) \<Longrightarrow>
   check_server server io hc = (Inr h, hc)"
  by (simp add: check_server_def is_cache_valid_def)

lemma check_server_miss:
  "\<not> is_cache_valid hc (url server) (t_check io) \<Longrightarrow>
   fst (check_server server io hc) = probe (timeout hc) server (t_start io) io \<and>
   issued (snd (check_server server io hc)) = issued hc @ [url server @ ''/health''] \<and>
   cache_ttl (snd (check_server server io hc)) = cache_ttl hc \<and>
   (\<forall>h. probe (timeout hc) server (t_start io) io = Inr h \<longrightarrow>
      cache (snd (check_server server io hc)) (url server) = Some (h, t_store io))"
  by (simp add: check_server_def Let_def split: sum.splits)


text \<open>
  Claim C7. When the cache holds a record for the server's URL whose age, the clock
  reading minus the entry's timestamp, is strictly below the TTL, \<^verbatim>\<open>check_server\<close> returns
  that record and leaves the checker as it was: no request is issued and the cache is not
  written. When there is no entry, or its age is at least the TTL, the result is the
  outcome of a new probe, built from the reply alone, and exactly one request has been
  issued, to the server's \<^verbatim>\<open>/health\<close>.
\<close>

theorem cache_freshness:
  "(cache hc (url server) = Some (h, ts) \<and> t_check io - ts < real_of_int (cache_ttl hc) \<longrightarrow>
      check_server server io hc = (Inr h, hc)) \<and>
   (cache hc (url server) = None \<or>
    (cache hc (url server) = Some (h, ts) \<and> \<not> t_check io - ts < real_of_int (cache_ttl hc)) \<longrightarrow>
      fst (check_server server io hc) = probe (timeout hc) server (t_start io) io \<and>
      issued (snd (check_server server io hc)) = issued hc @ [url server @ ''/health''])"
proof -
  have "\<not> is_cache_valid hc (url server) (t_check io)"
    if "cache hc (url server) = None \<or>
      (cache hc (url server) = Some (h, ts) \<and> \<not> t_check io - ts < real_of_int (cache_ttl hc))"
    using that by (auto simp: is_cache_valid_def)
  then show ?thesis
    using check_server_hit [of hc server h ts io] check_server_miss [of hc server io] by blast
qed

theorem cache_freshness_witness:
  "check_server (srv ''s'' ''http://s'') (io_at 105 (ok 50))
     (fresh_checker\<lparr>cache := [''http://s'' \<mapsto> (rec_of ''s'' HEALTHY (JNumber 90), 100)]\<rparr>) =
     (Inr (rec_of ''s'' HEALTHY (JNumber 90)),
      fresh_checker\<lparr>cache := [''http://s'' \<mapsto> (rec_of ''s'' HEALTHY (JNumber 90), 100)]\<rparr>) \<and>
   issued (snd (check_server (srv ''s'' ''http://s'') (io_at 110 (ok 50))
     (fresh_checker\<lparr>cache := [''http://s'' \<mapsto> (rec_of ''s'' HEALTHY (JNumber 90), 100)]\<rparr>))) =
     [''http://s/health''] \<and>
   issued (snd (check_server (srv ''s'' ''http://s'') (io_at 0 (ok 50)) fresh_checker)) =
     [''http://s/health'']"
proof -
  let ?hc = "fresh_checker\<lparr>cache := [''http://s'' \<mapsto> (rec_of ''s'' HEALTHY (JNumber 90), 100)]\<rparr>"
  let ?s = "srv ''s'' ''http://s''"
  have c: "cache ?hc (url ?s) = Some (rec_of ''s'' HEALTHY (JNumber 90), 100)"
    by (simp add: srv_def)
  have e: "cache fresh_checker (url ?s) = None"
    by (simp add: fresh_checker_def)
  have t: "cache_ttl ?hc = 10" "issued ?hc = []" "issued fresh_checker = []"
    by (simp_all add: fresh_checker_def)
  have u: "url ?s @ ''/health'' = ''http://s/health''" by (simp add: srv_def)
  from cache_freshness [of ?hc ?s "rec_of ''s'' HEALTHY (JNumber 90)" 100 "io_at 105 (ok 50)"] c t
  have 1: "check_server ?s (io_at 105 (ok 50)) ?hc = (Inr (rec_of ''s'' HEALTHY (JNumber 90)), ?hc)"
    by (simp add: io_at_def)
  from cache_freshness [of ?hc ?s "rec_of ''s'' HEALTHY (JNumber 90)" 100 "io_at 110 (ok 50)"] c t u
  have 2: "issued (snd (check_server ?s (io_at 110 (ok 50)) ?hc)) = [''http://s/health'']"
    by (simp add: io_at_def)
  from cache_freshness [of fresh_checker ?s "rec_of ''s'' HEALTHY (JNumber 90)" 100 "io_at 0 (ok 50)"] e t u
  have 3: "issued (snd (check_server ?s (io_at 0 (ok 50)) fresh_checker)) = [''http://s/health'']"
    by simp
  from 1 2 3 show ?thesis by blast
qed


text \<open>
  Claim C2, as stated: a 200 response whose body is not decodable or lacks an expected
  field gives an Unhealthy record with score 0, an error detail and the response time.
  In \<^verbatim>\<open>check_server\<close> a JSON object that has neither \<^verbatim>\<open>"status"\<close> nor \<^verbatim>\<open>"score"\<close> gives a
  Healthy record, scored from the latency, without error detail; and in the earlier
  \<^verbatim>\<open>check_server_health\<close> a body that is not decodable gives an \<^verbatim>\<open>'error'\<close> record without
  response time.
\<close>

theorem missing_field_counterexample:
  "fst (check_server (srv ''s'' ''u'') (io_at 0 (Response 200 (JsonObject None None))) fresh_checker) =
     Inr \<lparr>sh_name = ''s'', sh_url = ''u'', health = HEALTHY, response_time = Some 50,
          score = JNumber 100, status_code = Some 200, error = None, last_checked = 0.05\<rparr> \<and>
   check_server_health (srv ''s'' ''u'') (io_at 0 (Response 200 (Undecodable ''Expecting value''))) =
     \<lparr>d_name = ''s'', d_url = ''u'', d_health = JString ''error'', d_response_time = None,
      d_score = JNumber 0, d_status_code = None, d_error = Some ''Expecting value'',
      d_last_checked = 0.05\<rparr>"
  by (simp add: check_server_def is_cache_valid_def fresh_checker_def srv_def io_at_def probe_def
      session_get_def round2_def calculate_score_def check_server_health_def error_dict_def Let_def)


text \<open>
  Claim C2, amended. In \<^verbatim>\<open>check_server\<close>, a 200 response that \<^verbatim>\<open>session.get\<close> returns
  and whose body is not decodable gives an Unhealthy record with score 0, the error detail \<^verbatim>\<open>Invalid health response\<close>, the
  status code and the rounded response time; a 200 response whose body is a JSON object
  gives a Healthy record whatever entries the object has: its score is the upstream's
  when there is one and is computed from the latency otherwise, and \<^verbatim>\<open>"status"\<close> is not
  read. In the earlier \<^verbatim>\<open>check_server_health\<close>, a 200 response whose body is not decodable,
  is not an object, or lacks \<^verbatim>\<open>"status"\<close> or \<^verbatim>\<open>"score"\<close> gives an \<^verbatim>\<open>'error'\<close> record with score
  0, an error detail and no response time. What \<^verbatim>\<open>check_server\<close> does with a JSON body
  that is not an object is left out.
\<close>

theorem body_of_200_response:
  "(\<not> is_cache_valid hc (url server) (t_check io) \<and>
    session_get (timeout hc) io = Inr (Response 200 (Undecodable e)) \<longrightarrow>
      fst (check_server server io hc) =
        Inr \<lparr>sh_name = name server, sh_url = url server, health = UNHEALTHY,
             response_time = Some (round2 ((t_end io - t_start io) * 1000)), score = JNumber 0,
             status_code = Some 200, error = Some ''Invalid health response'',
             last_checked = t_made io\<rparr>) \<and>
   (\<not> is_cache_valid hc (url server) (t_check io) \<and>
    session_get (timeout hc) io = Inr (Response 200 (JsonObject st sc)) \<longrightarrow>
      fst (check_server server io hc) =
        Inr \<lparr>sh_name = name server, sh_url = url server, health = HEALTHY,
             response_time = Some (round2 ((t_end io - t_start io) * 1000)),
             score = (case sc of Some v \<Rightarrow> v
                      | None \<Rightarrow> JNumber (calculate_score ((t_end io - t_start io) * 1000))),
             status_code = Some 200, error = None, last_checked = t_made io\<rparr>) \<and>
   (reply io = Response 200 (Undecodable e) \<or> reply io = Response 200 (JsonOther e) \<longrightarrow>
      check_server_health server io =
        \<lparr>d_name = name server, d_url = url server, d_health = JString ''error'',
         d_response_time = None, d_score = JNumber 0, d_status_code = None, d_error = Some e,
         d_last_checked = t_made io\<rparr>) \<and>
   (reply io = Response 200 (JsonObject st sc) \<and> (st = None \<or> sc = None) \<longrightarrow>
      (\<exists>key. check_server_health server io =
        \<lparr>d_name = name server, d_url = url server, d_health = JString ''error'',
         d_response_time = None, d_score = JNumber 0, d_status_code = None, d_error = Some key,
         d_last_checked = t_made io\<rparr>))"
proof -
  have a: "fst (check_server server io hc) = probe (timeout hc) server (t_start io) io"
    if "\<not> is_cache_valid hc (url server) (t_check io)"
    using check_server_miss [OF that] by simp
  have p1: "session_get (timeout hc) io = Inr (Response 200 (Undecodable e)) \<Longrightarrow>
      probe (timeout hc) server (t_start io) io =
        Inr \<lparr>sh_name = name server, sh_url = url server, health = UNHEALTHY,
             response_time = Some (round2 ((t_end io - t_start io) * 1000)), score = JNumber 0,
             status_code = Some 200, error = Some ''Invalid health response'',
             last_checked = t_made io\<rparr>"
    by (simp add: probe_def Let_def)
  have p2: "session_get (timeout hc) io = Inr (Response 200 (JsonObject st sc)) \<Longrightarrow>
      probe (timeout hc) server (t_start io) io =
        Inr \<lparr>sh_name = name server, sh_url = url server, health = HEALTHY,
             response_time = Some (round2 ((t_end io - t_start io) * 1000)),
             score = (case sc of Some v \<Rightarrow> v
                      | None \<Rightarrow> JNumber (calculate_score ((t_end io - t_start io) * 1000))),
             status_code = Some 200, error = None, last_checked = t_made io\<rparr>"
    by (simp add: probe_def Let_def split: option.split)
  have p3: "reply io = Response 200 (Undecodable e) \<or> reply io = Response 200 (JsonOther e) \<Longrightarrow>
      check_server_health server io =
        \<lparr>d_name = name server, d_url = url server, d_health = JString ''error'',
         d_response_time = None, d_score = JNumber 0, d_status_code = None, d_error = Some e,
         d_last_checked = t_made io\<rparr>"
    by (auto simp: check_server_health_def error_dict_def)
  have p4: "reply io = Response 200 (JsonObject st sc) \<Longrightarrow> st = None \<or> sc = None \<Longrightarrow>
      \<exists>key. check_server_health server io =
        \<lparr>d_name = name server, d_url = url server, d_health = JString ''error'',
         d_response_time = None, d_score = JNumber 0, d_status_code = None, d_error = Some key,
         d_last_checked = t_made io\<rparr>"
    by (cases st; cases sc) (auto simp: check_server_health_def error_dict_def)
  show ?thesis using a p1 p2 p3 p4 by metis
qed

theorem body_of_200_response_witness:
  "\<not> is_cache_valid fresh_checker (url (srv ''s'' ''u'')) 0 \<and>
   session_get (timeout fresh_checker) (io_at 0 (Response 200 (Undecodable ''no JSON''))) =
     Inr (Response 200 (Undecodable ''no JSON'')) \<and>
   fst (check_server (srv ''s'' ''u'') (io_at 0 (Response 200 (Undecodable ''no JSON''))) fresh_checker) =
     Inr \<lparr>sh_name = ''s'', sh_url = ''u'', health = UNHEALTHY, response_time = Some 50,
          score = JNumber 0, status_code = Some 200, error = Some ''Invalid health response'',
          last_checked = 0.05\<rparr> \<and>
   fst (check_server (srv ''s'' ''u'') (io_at 0 (ok 77)) fresh_checker) =
     Inr \<lparr>sh_name = ''s'', sh_url = ''u'', health = HEALTHY, response_time = Some 50,
          score = JNumber 77, status_code = Some 200, error = None, last_checked = 0.05\<rparr> \<and>
   check_server_health (srv ''s'' ''u'') (io_at 0 (Response 200 (Undecodable ''no JSON''))) =
     \<lparr>d_name = ''s'', d_url = ''u'', d_health = JString ''error'', d_response_time = None,
      d_score = JNumber 0, d_status_code = None, d_error = Some ''no JSON'',
      d_last_checked = 0.05\<rparr> \<and>
   d_health (check_server_health (srv ''s'' ''u'')
      (io_at 0 (Response 200 (JsonObject (Some (JString ''ok'')) None)))) = JString ''error''"
proof -
  let ?s = "srv ''s'' ''u''"
  let ?bad = "io_at 0 (Response 200 (Undecodable ''no JSON''))"
  let ?half = "io_at 0 (Response 200 (JsonObject (Some (JString ''ok'')) None))"
  have v: "\<not> is_cache_valid fresh_checker (url ?s) 0"
    by (simp add: is_cache_valid_def fresh_checker_def)
  have r: "round2 50 = 50" by (simp add: round2_def Let_def)
  have g1: "session_get (timeout fresh_checker) ?bad = Inr (Response 200 (Undecodable ''no JSON''))"
    by (simp add: session_get_def fresh_checker_def io_at_def)
  have g2: "session_get (timeout fresh_checker) (io_at 0 (ok 77)) =
      Inr (Response 200 (JsonObject (Some (JString ''ok'')) (Some (JNumber 77))))"
    by (simp add: session_get_def fresh_checker_def io_at_def ok_def)
  note T1 = body_of_200_response [of fresh_checker ?s ?bad "''no JSON''" None None]
  note T2 = body_of_200_response [of fresh_checker ?s "io_at 0 (ok 77)" "[]"
      "Some (JString ''ok'')" "Some (JNumber 77)"]
  note T3 = body_of_200_response [of fresh_checker ?s ?half "[]" "Some (JString ''ok'')" None]
  from T1 v r g1 have c1: "fst (check_server ?s ?bad fresh_checker) =
     Inr \<lparr>sh_name = ''s'', sh_url = ''u'', health = UNHEALTHY, response_time = Some 50,
          score = JNumber 0, status_code = Some 200, error = Some ''Invalid health response'',
          last_checked = 0.05\<rparr>"
    by (simp add: io_at_def srv_def)
  from T2 v r g2 have c2: "fst (check_server ?s (io_at 0 (ok 77)) fresh_checker) =
     Inr \<lparr>sh_name = ''s'', sh_url = ''u'', health = HEALTHY, response_time = Some 50,
          score = JNumber 77, status_code = Some 200, error = None, last_checked = 0.05\<rparr>"
    by (simp add: io_at_def srv_def)
  from T1 have c3: "check_server_health ?s ?bad =
     \<lparr>d_name = ''s'', d_url = ''u'', d_health = JString ''error'', d_response_time = None,
      d_score = JNumber 0, d_status_code = None, d_error = Some ''no JSON'',
      d_last_checked = 0.05\<rparr>"
    by (simp add: io_at_def srv_def)
  from T3 have c4: "d_health (check_server_health ?s ?half) = JString ''error''"
    by (auto simp: io_at_def)
  from v g1 c1 c2 c3 c4 show ?thesis by blast
qed


text \<open>
  Claim C10. Whenever a probe yields a record, also an Error or an Unhealthy one, the
  record is the result of \<^verbatim>\<open>check_server\<close> and is stored in the cache under the server's
  URL with the clock reading of the store; every later check of that server whose clock
  reading is less than the TTL after it returns this record and leaves the checker
  unchanged, so it issues no request, whatever the upstream would reply by then. A
  transport failure yields an Error record; a response other than 200, and a 200
  response that is not decodable, an Unhealthy one.
\<close>

theorem failure_records_are_cached:
  assumes "\<not> is_cache_valid hc (url server) (t_check io)"
    and "probe (timeout hc) server (t_start io) io = Inr h"
  shows "fst (check_server server io hc) = Inr h \<and>
         cache (snd (check_server server io hc)) (url server) = Some (h, t_store io) \<and>
         (\<forall>io'. t_check io' - t_store io < real_of_int (cache_ttl hc) \<longrightarrow>
            check_server server io' (snd (check_server server io hc)) =
              (Inr h, snd (check_server server io hc))) \<and>
         (\<forall>e. reply io = RequestException e \<longrightarrow> health h = ERROR) \<and>
         (\<forall>code content. reply io = Response code content \<and> code \<noteq> 200 \<longrightarrow> health h = UNHEALTHY) \<and>
         (\<forall>e. reply io = Response 200 (Undecodable e) \<longrightarrow> health h = UNHEALTHY)"
proof -
  let ?hc' = "snd (check_server server io hc)"
  from check_server_miss [OF assms(1)] assms(2)
  have r: "fst (check_server server io hc) = Inr h"
    and c: "cache ?hc' (url server) = Some (h, t_store io)"
    and t: "cache_ttl ?hc' = cache_ttl hc" by simp_all
  have again: "check_server server io' ?hc' = (Inr h, ?hc')"
    if "t_check io' - t_store io < real_of_int (cache_ttl hc)" for io'
    using check_server_hit [OF c, of io'] that t by simp
  have s1: "health h = ERROR" if "reply io = RequestException e" for e
    using assms(2) that
    by (auto simp: probe_def session_get_def error_record_def split: if_splits)
  have s2: "health h = UNHEALTHY" if "reply io = Response code content \<and> code \<noteq> 200" for code content
    using assms(2) that by (auto simp: probe_def session_get_def Let_def split: if_splits)
  have s3: "health h = UNHEALTHY" if "reply io = Response 200 (Undecodable e)" for e
    using assms(2) that by (auto simp: probe_def session_get_def Let_def split: if_splits)
  from r c again s1 s2 s3 show ?thesis by blast
qed

theorem failure_records_are_cached_witness:
  "\<not> is_cache_valid fresh_checker (url (srv ''s'' ''http://s'')) (t_check (io_at 0 (RequestException ''refused''))) \<and>
   t_check (io_at 5 (ok 99)) - t_store (io_at 0 (RequestException ''refused'')) < real_of_int (cache_ttl fresh_checker) \<and>
   fst (check_server (srv ''s'' ''http://s'') (io_at 5 (ok 99))
          (snd (check_server (srv ''s'' ''http://s'') (io_at 0 (RequestException ''refused'')) fresh_checker))) =
     Inr \<lparr>sh_name = ''s'', sh_url = ''http://s'', health = ERROR, response_time = None,
          score = JNumber 0, status_code = None, error = Some ''refused'', last_checked = 0.05\<rparr> \<and>
   issued (snd (check_server (srv ''s'' ''http://s'') (io_at 5 (ok 99))
          (snd (check_server (srv ''s'' ''http://s'') (io_at 0 (RequestException ''refused'')) fresh_checker)))) =
     [''http://s/health'']"
proof -
  let ?s = "srv ''s'' ''http://s''"
  let ?io = "io_at 0 (RequestException ''refused'')"
  let ?h = "\<lparr>sh_name = ''s'', sh_url = ''http://s'', health = ERROR, response_time = None,
          score = JNumber 0, status_code = None, error = Some ''refused'', last_checked = 0.05\<rparr>"
  have v: "\<not> is_cache_valid fresh_checker (url ?s) (t_check ?io)"
    by (simp add: is_cache_valid_def fresh_checker_def)
  have p: "probe (timeout fresh_checker) ?s (t_start ?io) ?io = Inr ?h"
    by (simp add: probe_def session_get_def error_record_def fresh_checker_def io_at_def srv_def)
  have a: "t_check (io_at 5 (ok 99)) - t_store ?io < real_of_int (cache_ttl fresh_checker)"
    by (simp add: io_at_def fresh_checker_def)
  have i: "issued (snd (check_server ?s ?io fresh_checker)) = [''http://s/health'']"
    by (simp add: check_server_def is_cache_valid_def fresh_checker_def srv_def probe_def
        session_get_def error_record_def io_at_def Let_def)
  from failure_records_are_cached [OF v p] a
  have "check_server ?s (io_at 5 (ok 99)) (snd (check_server ?s ?io fresh_checker)) =
          (Inr ?h, snd (check_server ?s ?io fresh_checker))" by blast
  with v a i show ?thesis by simp
qed



section \<open>Properties of the thread pool\<close>

lemma completes_iff: "completes n schedule \<longleftrightarrow> (\<forall>i<n. 2 \<le> count_list (map fst schedule) i)"
  by (auto simp: completes_def list_all_iff)

lemma cache_describes_iff:
  "cache_describes registry c \<longleftrightarrow>
     (\<forall>server\<in>set registry. \<forall>h ts. c (url server) = Some (h, ts) \<longrightarrow> describes server h)"
  by (auto simp: cache_describes_def list_all_iff split: option.splits)

lemma tasks_describe_iff:
  "tasks_describe registry tasks \<longleftrightarrow>
     length tasks = length registry \<and>
     (\<forall>i<length registry. \<forall>h. tasks ! i = Done (Inr h) \<longrightarrow> describes (registry ! i) h)"
proof (cases "length tasks = length registry")
  case False
  then show ?thesis by (simp add: tasks_describe_def)
next
  case True
  have "list_all (\<lambda>(server, t). case t of Done (Inr h) \<Rightarrow> describes server h | _ \<Rightarrow> True)
        (zip registry tasks) \<longleftrightarrow>
     (\<forall>i<length registry. \<forall>h. tasks ! i = Done (Inr h) \<longrightarrow> describes (registry ! i) h)"
    unfolding list_all_length using True
    by (auto split: task.splits sum.splits)
  then show ?thesis using True by (simp add: tasks_describe_def)
qed

lemma probe_describes: "probe t server st io = Inr h \<Longrightarrow> describes server h"
  by (auto simp: probe_def session_get_def error_record_def describes_def Let_def
      split: reply.splits body.splits if_splits)

text \<open>
  The probe raises in two cases only: the timeout is not positive, or the reply is a 200
  with a body that is no object.
\<close>

lemma probe_raises: "probe t server st io = Inl e \<Longrightarrow> t \<le> 0 \<or> non_object_body io"
  by (auto simp: probe_def session_get_def non_object_body_def Let_def
      split: reply.splits body.splits if_splits)


text \<open>The five things a step can do.\<close>

lemma step_cases [case_names outside finished hit miss raised stored]:
  obtains
    (outside) "\<not> (i < length tasks \<and> i < length registry)"
      "step registry (i, io) (hc, tasks) = (hc, tasks)"
  | (finished) r where "i < length tasks" "tasks ! i = Done r"
      "step registry (i, io) (hc, tasks) = (hc, tasks)"
  | (hit) h ts where "i < length tasks" "i < length registry" "tasks ! i = Queued"
      "cache hc (url (registry ! i)) = Some (h, ts)"
      "t_check io - ts < real_of_int (cache_ttl hc)"
      "step registry (i, io) (hc, tasks) = (hc, tasks[i := Done (Inr h)])"
  | (miss) "i < length tasks" "i < length registry" "tasks ! i = Queued"
      "\<not> is_cache_valid hc (url (registry ! i)) (t_check io)"
      "step registry (i, io) (hc, tasks) =
         (hc\<lparr>issued := issued hc @ [url (registry ! i) @ ''/health'']\<rparr>,
          tasks[i := InFlight (t_start io)])"
  | (raised) st e where "i < length tasks" "i < length registry" "tasks ! i = InFlight st"
      "probe (timeout hc) (registry ! i) st io = Inl e"
      "step registry (i, io) (hc, tasks) = (hc, tasks[i := Done (Inl e)])"
  | (stored) st h where "i < length tasks" "i < length registry" "tasks ! i = InFlight st"
      "probe (timeout hc) (registry ! i) st io = Inr h"
      "step registry (i, io) (hc, tasks) =
         (hc\<lparr>cache := (cache hc)(url (registry ! i) \<mapsto> (h, t_store io))\<rparr>,
          tasks[i := Done (Inr h)])"
proof (cases "i < length tasks \<and> i < length registry")
  case False
  then have "step registry (i, io) (hc, tasks) = (hc, tasks)" by auto
  with False show ?thesis by (rule outside)
next
  case True
  then have il: "i < length tasks" "i < length registry" by simp_all
  show ?thesis
  proof (cases "tasks ! i")
    case Queued
    show ?thesis
    proof (cases "is_cache_valid hc (url (registry ! i)) (t_check io)")
      case valid: True
      then obtain h ts where e: "cache hc (url (registry ! i)) = Some (h, ts)"
        and f: "t_check io - ts < real_of_int (cache_ttl hc)"
        by (auto simp: is_cache_valid_def split: option.splits)
      have "step registry (i, io) (hc, tasks) = (hc, tasks[i := Done (Inr h)])"
        using il Queued valid e by (simp add: Let_def)
      with il Queued e f show ?thesis by (rule hit)
    next
      case False
      have "step registry (i, io) (hc, tasks) =
         (hc\<lparr>issued := issued hc @ [url (registry ! i) @ ''/health'']\<rparr>,
          tasks[i := InFlight (t_start io)])"
        using il Queued False by (simp add: Let_def)
      with il Queued False show ?thesis by (rule miss)
    qed
  next
    case (InFlight st)
    show ?thesis
    proof (cases "probe (timeout hc) (registry ! i) st io")
      case (Inl e)
      have "step registry (i, io) (hc, tasks) = (hc, tasks[i := Done (Inl e)])"
        using il InFlight Inl by (simp add: Let_def)
      with il InFlight Inl show ?thesis by (rule raised)
    next
      case (Inr h)
      have "step registry (i, io) (hc, tasks) =
         (hc\<lparr>cache := (cache hc)(url (registry ! i) \<mapsto> (h, t_store io))\<rparr>,
          tasks[i := Done (Inr h)])"
        using il InFlight Inr by (simp add: Let_def)
      with il InFlight Inr show ?thesis by (rule stored)
    qed
  next
    case (Done r)
    have "step registry (i, io) (hc, tasks) = (hc, tasks)"
      using il Done by (simp add: Let_def)
    with il(1) Done show ?thesis by (rule finished)
  qed
qed

declare step.simps [simp del]

lemma step_timeout: "timeout (fst (step registry ev (hc, tasks))) = timeout hc"
proof -
  obtain i io where ev: "ev = (i, io)" by (cases ev)
  have "timeout (fst (step registry (i, io) (hc, tasks))) = timeout hc"
    by (cases rule: step_cases [where registry = registry and i = i and io = io and hc = hc and tasks = tasks]) simp_all
  then show ?thesis by (simp add: ev)
qed

lemma fold_step_timeout: "timeout (fst (fold (step registry) schedule s)) = timeout (fst s)"
proof (induction schedule arbitrary: s)
  case Nil
  show ?case by simp
next
  case (Cons ev schedule)
  obtain hc tasks where s: "s = (hc, tasks)" by (cases s)
  show ?case using Cons.IH [of "step registry ev s"] step_timeout [of registry ev hc tasks] s
    by simp
qed

lemma step_length: "length (snd (step registry ev (hc, tasks))) = length tasks"
proof -
  obtain i io where ev: "ev = (i, io)" by (cases ev)
  have "length (snd (step registry (i, io) (hc, tasks))) = length tasks"
    by (cases rule: step_cases [where registry = registry and i = i and io = io and hc = hc and tasks = tasks]) simp_all
  then show ?thesis by (simp add: ev)
qed

lemma fold_step_length:
  "length (snd (fold (step registry) schedule s)) = length (snd s)"
proof (induction schedule arbitrary: s)
  case Nil
  show ?case by simp
next
  case (Cons ev schedule)
  obtain hc tasks where s: "s = (hc, tasks)" by (cases s)
  show ?case using Cons.IH [of "step registry ev s"] step_length [of registry ev hc tasks] s
    by simp
qed

lemma same_url_same_server:
  assumes "distinct (map url registry)" "i < length registry" "server \<in> set registry"
    "url server = url (registry ! i)"
  shows "server = registry ! i"
proof -
  from assms(1) have "inj_on url (set registry)" by (simp add: distinct_map)
  moreover have "registry ! i \<in> set registry" using assms(2) by simp
  ultimately show ?thesis using assms(3,4) by (auto dest: inj_onD)
qed

lemma tasks_describe_update:
  assumes "tasks_describe registry tasks" "i < length registry"
    "\<And>h. t = Done (Inr h) \<Longrightarrow> describes (registry ! i) h"
  shows "tasks_describe registry (tasks[i := t])"
  using assms unfolding tasks_describe_iff by (auto simp: nth_list_update)

lemma cache_describes_update:
  assumes "distinct (map url registry)" "cache_describes registry c" "i < length registry"
    "describes (registry ! i) h"
  shows "cache_describes registry (c(url (registry ! i) \<mapsto> (h, ts)))"
  unfolding cache_describes_iff
proof (intro ballI allI impI)
  fix server h' ts'
  assume m: "server \<in> set registry"
    and e: "(c(url (registry ! i) \<mapsto> (h, ts))) (url server) = Some (h', ts')"
  show "describes server h'"
  proof (cases "url server = url (registry ! i)")
    case True
    then have "server = registry ! i" using same_url_same_server assms(1,3) m by blast
    moreover have "h' = h" using e True by simp
    ultimately show ?thesis using assms(4) by simp
  next
    case False
    then have "c (url server) = Some (h', ts')" using e by simp
    then show ?thesis using assms(2) m unfolding cache_describes_iff by blast
  qed
qed


lemma step_describes:
  assumes d: "distinct (map url registry)"
    and c: "cache_describes registry (cache hc)"
    and t: "tasks_describe registry tasks"
  shows "cache_describes registry (cache (fst (step registry ev (hc, tasks)))) \<and>
         tasks_describe registry (snd (step registry ev (hc, tasks)))"
proof -
  obtain i io where ev: "ev = (i, io)" by (cases ev)
  have "cache_describes registry (cache (fst (step registry (i, io) (hc, tasks)))) \<and>
         tasks_describe registry (snd (step registry (i, io) (hc, tasks)))"
  proof (cases rule: step_cases [where registry = registry and i = i and io = io and hc = hc and tasks = tasks])
    case outside
    then show ?thesis using c t by simp
  next
    case (finished r)
    then show ?thesis using c t by simp
  next
    case (hit h ts)
    have "registry ! i \<in> set registry" using hit(2) by simp
    then have "describes (registry ! i) h"
      using c hit(4) unfolding cache_describes_iff by blast
    then have "tasks_describe registry (tasks[i := Done (Inr h)])"
      using tasks_describe_update [OF t hit(2), of "Done (Inr h)"] by simp
    then show ?thesis using hit(6) c by simp
  next
    case miss
    have "tasks_describe registry (tasks[i := InFlight (t_start io)])"
      using tasks_describe_update [OF t miss(2), of "InFlight (t_start io)"] by simp
    then show ?thesis using miss(5) c by simp
  next
    case (raised st e)
    have "tasks_describe registry (tasks[i := Done (Inl e)])"
      using tasks_describe_update [OF t raised(2), of "Done (Inl e)"] by simp
    then show ?thesis using raised(5) c by simp
  next
    case (stored st h)
    from stored(4) have dh: "describes (registry ! i) h" by (rule probe_describes)
    have "tasks_describe registry (tasks[i := Done (Inr h)])"
      using tasks_describe_update [OF t stored(2), of "Done (Inr h)"] dh by simp
    moreover have "cache_describes registry ((cache hc)(url (registry ! i) \<mapsto> (h, t_store io)))"
      using cache_describes_update [OF d c stored(2) dh] .
    ultimately show ?thesis using stored(5) by simp
  qed
  then show ?thesis by (simp add: ev)
qed

lemma fold_step_describes:
  assumes "distinct (map url registry)"
  shows "cache_describes registry (cache (fst s)) \<Longrightarrow> tasks_describe registry (snd s) \<Longrightarrow>
         cache_describes registry (cache (fst (fold (step registry) schedule s))) \<and>
         tasks_describe registry (snd (fold (step registry) schedule s))"
proof (induction schedule arbitrary: s)
  case Nil
  then show ?case by simp
next
  case (Cons ev schedule)
  obtain hc tasks where s: "s = (hc, tasks)" by (cases s)
  have "cache_describes registry (cache (fst (step registry ev s))) \<and>
        tasks_describe registry (snd (step registry ev s))"
    using step_describes [OF assms, of hc tasks ev] Cons.prems s by simp
  then show ?case using Cons.IH [of "step registry ev s"] by simp
qed

lemma no_exn_update: "no_exn tasks \<Longrightarrow> \<forall>e. t \<noteq> Done (Inl e) \<Longrightarrow> no_exn (tasks[i := t])"
  unfolding no_exn_def by (auto dest!: set_update_subset_insert [THEN subsetD])

lemma step_no_exn:
  assumes n: "\<not> non_object_body (snd ev)" and p: "0 < timeout hc" and t: "no_exn tasks"
  shows "no_exn (snd (step registry ev (hc, tasks)))"
proof -
  obtain i io where ev: "ev = (i, io)" by (cases ev)
  have "no_exn (snd (step registry (i, io) (hc, tasks)))"
  proof (cases rule: step_cases [where registry = registry and i = i and io = io and hc = hc and tasks = tasks])
    case outside
    then show ?thesis using t by simp
  next
    case (finished r)
    then show ?thesis using t by simp
  next
    case (hit h ts)
    then show ?thesis using no_exn_update [OF t, of "Done (Inr h)"] by simp
  next
    case miss
    then show ?thesis using no_exn_update [OF t, of "InFlight (t_start io)"] by simp
  next
    case (raised st e)
    then have "timeout hc \<le> 0 \<or> non_object_body io" using probe_raises by blast
    then show ?thesis using n p ev by simp
  next
    case (stored st h)
    then show ?thesis using no_exn_update [OF t, of "Done (Inr h)"] by simp
  qed
  then show ?thesis by (simp add: ev)
qed

lemma fold_step_no_exn:
  "\<forall>ev\<in>set schedule. \<not> non_object_body (snd ev) \<Longrightarrow> 0 < timeout (fst s) \<Longrightarrow>
   no_exn (snd s) \<Longrightarrow> no_exn (snd (fold (step registry) schedule s))"
proof (induction schedule arbitrary: s)
  case Nil
  then show ?case by simp
next
  case (Cons ev schedule)
  obtain hc tasks where s: "s = (hc, tasks)" by (cases s)
  have "no_exn (snd (step registry ev s))"
    using step_no_exn [of ev hc tasks registry] Cons.prems s by simp
  moreover have "0 < timeout (fst (step registry ev s))"
    using step_timeout [of registry ev hc tasks] Cons.prems(2) s by simp
  ultimately show ?case using Cons.IH [of "step registry ev s"] Cons.prems(1) by simp
qed

text \<open>Progress: a step of a task advances it unless it is done, and never sets a task back.\<close>

lemma step_rank:
  assumes j: "j < length tasks" and l: "length tasks = length registry"
  shows "min 2 (rank (tasks ! j) + (if fst ev = j then 1 else 0))
           \<le> rank (snd (step registry ev (hc, tasks)) ! j)"
proof -
  obtain i io where ev: "ev = (i, io)" by (cases ev)
  have "min 2 (rank (tasks ! j) + (if i = j then 1 else 0))
           \<le> rank (snd (step registry (i, io) (hc, tasks)) ! j)"
  proof (cases rule: step_cases [where registry = registry and i = i and io = io and hc = hc and tasks = tasks])
    case outside
    then show ?thesis using j l by auto
  next
    case (finished r)
    then show ?thesis by (cases "i = j") simp_all
  next
    case (hit h ts)
    then show ?thesis using j by (cases "i = j") (simp_all add: nth_list_update)
  next
    case miss
    then show ?thesis using j by (cases "i = j") (simp_all add: nth_list_update)
  next
    case (raised st e)
    then show ?thesis using j by (cases "i = j") (simp_all add: nth_list_update)
  next
    case (stored st h)
    then show ?thesis using j by (cases "i = j") (simp_all add: nth_list_update)
  qed
  then show ?thesis by (simp add: ev)
qed

lemma fold_step_rank:
  "j < length (snd s) \<Longrightarrow> length (snd s) = length registry \<Longrightarrow>
   min 2 (rank (snd s ! j) + count_list (map fst schedule) j)
     \<le> rank (snd (fold (step registry) schedule s) ! j)"
proof (induction schedule arbitrary: s)
  case Nil
  then show ?case by simp
next
  case (Cons ev schedule)
  obtain hc tasks where s: "s = (hc, tasks)" by (cases s)
  let ?s' = "step registry ev s"
  have len: "length (snd ?s') = length (snd s)" using step_length [of registry ev hc tasks] s by simp
  have r1: "min 2 (rank (snd s ! j) + (if fst ev = j then 1 else 0)) \<le> rank (snd ?s' ! j)"
    using step_rank [of j tasks registry ev hc] Cons.prems s by simp
  have r2: "min 2 (rank (snd ?s' ! j) + count_list (map fst schedule) j)
          \<le> rank (snd (fold (step registry) schedule ?s') ! j)"
    using Cons.IH [of ?s'] Cons.prems len by simp
  have "count_list (map fst (ev # schedule)) j =
          (if fst ev = j then 1 else 0) + count_list (map fst schedule) j" by simp
  then show ?case using r1 r2 by (simp add: min_def split: if_splits)
qed

lemma collect_done:
  "\<forall>t\<in>set tasks. rank t = 2 \<Longrightarrow> no_exn tasks \<Longrightarrow> \<exists>rs. collect tasks = Some (Inr rs)"
proof (induction tasks)
  case Nil
  show ?case by simp
next
  case (Cons t tasks)
  then obtain rs where "collect tasks = Some (Inr rs)" by (auto simp: no_exn_def)
  moreover from Cons.prems obtain h where "t = Done (Inr h)"
  proof (cases t)
    case (Done r)
    with Cons.prems(2) that show ?thesis by (cases r) (auto simp: no_exn_def)
  qed auto
  ultimately show ?case by simp
qed

lemma collect_records:
  "collect tasks = Some (Inr rs) \<Longrightarrow>
   length rs = length tasks \<and> (\<forall>i<length tasks. tasks ! i = Done (Inr (rs ! i)))"
proof (induction tasks arbitrary: rs rule: collect.induct)
  case 1
  then show ?case by simp
next
  case (2 e ts)
  then show ?case by simp
next
  case (3 h ts)
  from "3.prems" obtain hs where hs: "collect ts = Some (Inr hs)" and rs: "rs = h # hs"
    by (auto split: option.splits sum.splits)
  from "3.IH" [OF hs] have "length hs = length ts" "\<forall>i<length ts. ts ! i = Done (Inr (hs ! i))"
    by simp_all
  then show ?case using rs by (auto simp: nth_Cons split: nat.splits)
qed simp_all

lemma check_server_as_steps:
  assumes "i < length registry" "length tasks = length registry" "tasks ! i = Queued"
  shows "step registry (i, io) (step registry (i, io) (hc, tasks)) =
     (snd (check_server (registry ! i) io hc),
      tasks[i := Done (fst (check_server (registry ! i) io hc))])"
  using assms
  by (auto simp: step.simps check_server_def Let_def split: option.splits sum.splits)


text \<open>The configured server list has pairwise distinct URLs and names.\<close>

lemma SERVERS_distinct: "distinct (map url SERVERS) \<and> distinct (map name SERVERS)"
  by (simp add: SERVERS_def)

lemma run_pool_start:
  "tasks_describe registry (replicate (length registry) Queued)"
  "no_exn (replicate (length registry) Queued)"
  by (auto simp: tasks_describe_iff no_exn_def)

lemma check_all_fst:
  "fst (check_all_servers_parallel registry schedule hc) =
     collect (snd (fold (step registry) schedule (hc, replicate (length registry) Queued)))"
  by (simp add: check_all_servers_parallel_def run_pool_def case_prod_beta)

lemma check_all_snd:
  "snd (check_all_servers_parallel registry schedule hc) =
     fst (fold (step registry) schedule (hc, replicate (length registry) Queued))"
  by (simp add: check_all_servers_parallel_def run_pool_def case_prod_beta)

text \<open>
  The snapshot returns a list when every task runs to its end, the timeout is positive
  and no reply is a 200 with a body that is no object.
\<close>

lemma snapshot_returns:
  assumes "completes (length registry) schedule"
    and "\<forall>ev\<in>set schedule. \<not> non_object_body (snd ev)"
    and "0 < timeout hc"
  shows "\<exists>rs. fst (check_all_servers_parallel registry schedule hc) = Some (Inr rs) \<and>
              length rs = length registry"
proof -
  let ?init = "(hc, replicate (length registry) Queued)"
  let ?fin = "fold (step registry) schedule ?init"
  have len: "length (snd ?fin) = length registry"
    using fold_step_length [of registry schedule ?init] by simp
  have ne: "no_exn (snd ?fin)"
    using fold_step_no_exn [OF assms(2), of ?init registry] assms(3) run_pool_start(2) by simp
  have "rank t = 2" if "t \<in> set (snd ?fin)" for t
  proof -
    from that obtain j where j: "j < length registry" and t: "t = snd ?fin ! j"
      using len by (metis in_set_conv_nth)
    have "2 \<le> count_list (map fst schedule) j"
      using assms(1) j by (simp add: completes_iff)
    then have "2 \<le> rank (snd ?fin ! j)"
      using fold_step_rank [of j ?init registry schedule] j by simp
    then have "2 \<le> rank t" using t by simp
    then show ?thesis by (cases t) auto
  qed
  then obtain rs where rs: "collect (snd ?fin) = Some (Inr rs)"
    using collect_done [of "snd ?fin"] ne by blast
  then have "length rs = length registry" using collect_records [OF rs] len by simp
  with rs show ?thesis by (simp add: check_all_fst)
qed

lemma snapshot_inv:
  assumes "distinct (map url registry)" and "cache_describes registry (cache hc)"
  shows "cache_describes registry
           (cache (fst (fold (step registry) schedule (hc, replicate (length registry) Queued)))) \<and>
         tasks_describe registry
           (snd (fold (step registry) schedule (hc, replicate (length registry) Queued)))"
  using fold_step_describes [OF assms(1), of "(hc, replicate (length registry) Queued)" schedule]
    assms(2) run_pool_start(1) by simp

lemma snapshot_cache_describes:
  assumes "distinct (map url registry)" and "cache_describes registry (cache hc)"
  shows "cache_describes registry (cache (snd (check_all_servers_parallel registry schedule hc)))"
  using snapshot_inv [OF assms, of schedule] by (simp add: check_all_snd)

lemma snapshot_describes:
  assumes "distinct (map url registry)" and "cache_describes registry (cache hc)"
    and "fst (check_all_servers_parallel registry schedule hc) = Some (Inr rs)"
  shows "length rs = length registry \<and> (\<forall>i<length registry. describes (registry ! i) (rs ! i))"
proof -
  let ?fin = "fold (step registry) schedule (hc, replicate (length registry) Queued)"
  from assms(3) have rs: "collect (snd ?fin) = Some (Inr rs)"
    by (simp add: check_all_fst)
  from snapshot_inv [OF assms(1,2), of schedule] have td: "length (snd ?fin) = length registry"
    "\<forall>i<length registry. \<forall>h. snd ?fin ! i = Done (Inr h) \<longrightarrow> describes (registry ! i) h"
    unfolding tasks_describe_iff by simp_all
  from collect_records [OF rs] td show ?thesis by auto
qed




section \<open>The engine without the defect\<close>

text \<open>
  What holds of the snapshot apart from the exceptions that leave \<^verbatim>\<open>check_server\<close>. A
  transport failure is turned into an Error record, with no response time, score 0 and
  the text of the exception, by \<^verbatim>\<open>check_server\<close> and by the step of the pool that receives
  it, which leaves the other tasks as they are.
\<close>

lemma transport_failure_record:
  assumes "\<not> is_cache_valid hc (url server) (t_check io)" and "0 < timeout hc"
    and "reply io = RequestException e"
  shows "fst (check_server server io hc) =
        Inr \<lparr>sh_name = name server, sh_url = url server, health = ERROR, response_time = None,
             score = JNumber 0, status_code = None, error = Some e, last_checked = t_made io\<rparr>"
  using check_server_miss [OF assms(1)] assms(2,3)
  by (simp add: probe_def session_get_def error_record_def)

lemma transport_failure_step:
  assumes "i < length registry" and "length tasks = length registry"
    and "tasks ! i = InFlight st" and "0 < timeout hc" and "reply io = RequestException e"
  shows "snd (step registry (i, io) (hc, tasks)) =
        tasks[i := Done (Inr \<lparr>sh_name = name (registry ! i), sh_url = url (registry ! i),
             health = ERROR, response_time = None, score = JNumber 0, status_code = None,
             error = Some e, last_checked = t_made io\<rparr>)]"
  using assms by (simp add: step.simps probe_def session_get_def error_record_def Let_def)

text \<open>
  For a registry whose URLs are pairwise distinct, and a cache whose entries describe its
  members, under every schedule: a snapshot that returns a list returns one record per
  member, in the order of the registry, the record at position \<open>i\<close> carrying the name and
  the URL of the server at position \<open>i\<close>. It returns a list when every task runs to its
  end, the timeout is positive and no reply is a 200 whose body is no object.
\<close>

lemma snapshot_in_registry_order:
  assumes "distinct (map url registry)" and "cache_describes registry (cache hc)"
  shows "(\<forall>rs. fst (check_all_servers_parallel registry schedule hc) = Some (Inr rs) \<longrightarrow>
            length rs = length registry \<and>
            (\<forall>i<length registry. sh_name (rs ! i) = name (registry ! i) \<and>
                                  sh_url (rs ! i) = url (registry ! i))) \<and>
         (completes (length registry) schedule \<and> 0 < timeout hc \<and>
          (\<forall>ev\<in>set schedule. \<not> non_object_body (snd ev)) \<longrightarrow>
            (\<exists>rs. fst (check_all_servers_parallel registry schedule hc) = Some (Inr rs))) \<and>
         cache_describes registry (cache (snd (check_all_servers_parallel registry schedule hc)))"
proof -
  have 1: "length rs = length registry \<and>
            (\<forall>i<length registry. sh_name (rs ! i) = name (registry ! i) \<and>
                                  sh_url (rs ! i) = url (registry ! i))"
    if "fst (check_all_servers_parallel registry schedule hc) = Some (Inr rs)" for rs
    using snapshot_describes [OF assms that] by (simp add: describes_def)
  have 2: "\<exists>rs. fst (check_all_servers_parallel registry schedule hc) = Some (Inr rs)"
    if "completes (length registry) schedule \<and> 0 < timeout hc \<and>
        (\<forall>ev\<in>set schedule. \<not> non_object_body (snd ev))"
    using snapshot_returns [of registry schedule hc] that by blast
  from 1 2 snapshot_cache_describes [OF assms, of schedule] show ?thesis by blast
qed


lemma snapshot_in_registry_order_example:
  "map_option (map_sum id (map (\<lambda>h. (sh_name h, health h))))
     (fst (check_all_servers_parallel registry4 schedule4 fresh_checker)) =
     Some (Inr [(''s1'', HEALTHY), (''s2'', ERROR), (''s3'', HEALTHY), (''s4'', UNHEALTHY)])"
  by (simp add: check_all_servers_parallel_def run_pool_def registry4_def schedule4_def
      schedule_of_def fresh_checker_def step.simps is_cache_valid_def probe_def session_get_def
      error_record_def io_at_def ok_def timed_out_def srv_def round2_def Let_def)

text \<open>
  Two more exceptions leave the engine. When the timeout is not positive, every probe
  raises \<^verbatim>\<open>ValueError\<close>; when two Healthy records are compared and one holds \<^verbatim>\<open>null\<close> as its
  score, \<^verbatim>\<open>max\<close> raises \<^verbatim>\<open>TypeError\<close>.
\<close>

lemma timeout_zero_raises:
  "fst (check_server (srv ''s1'' ''http://h1'') (io_at 0 (ok 80)) (fresh_checker\<lparr>timeout := 0\<rparr>)) =
     Inl ValueError"
  by (simp add: check_server_def is_cache_valid_def fresh_checker_def probe_def session_get_def
      io_at_def ok_def Let_def)

lemma null_score_raises:
  "fst (get_best_server \<lparr>servers = registry4, health_checker = fresh_checker\<rparr>
     (schedule_of (ok 80) (Response 200 (JsonObject (Some (JString ''ok'')) (Some JNull)))
        (ok 95) (ok 70))) = Some (Inl TypeError)"
  by (simp add: get_best_server_def get_all_server_health_def best_server_any_def max_py_def
      check_all_servers_parallel_def run_pool_def registry4_def schedule_of_def
      fresh_checker_def step.simps is_cache_valid_def probe_def session_get_def
      io_at_def ok_def srv_def round2_def Let_def)

section \<open>The defect: an exception that leaves the snapshot\<close>

text \<open>
  Claim C8. The snapshot is to return exactly one record per registry member, in the
  order of the registry. On a registry of four with distinct names and URLs, with a
  checker as the module constructs it, all four probes run to their end; the third
  upstream answers 200 with a JSON list as body. \<^verbatim>\<open>health_data.get\<close> raises
  \<^verbatim>\<open>AttributeError\<close>, which \<^verbatim>\<open>except (ValueError, KeyError)\<close> does not catch, the future of
  the third task holds it, and \<^verbatim>\<open>check_all_servers_parallel\<close> raises it where it should
  return four records.
\<close>

theorem snapshot_raises_on_list_body:
  "distinct (map url registry4) \<and> distinct (map name registry4) \<and>
   0 < timeout fresh_checker \<and> completes (length registry4) schedule_list \<and>
   fst (check_all_servers_parallel registry4 schedule_list fresh_checker) =
     Some (Inl AttributeError)"
  by (simp add: check_all_servers_parallel_def run_pool_def registry4_def schedule_list_def
      schedule_of_def completes_def upt_rec fresh_checker_def step.simps is_cache_valid_def
      probe_def session_get_def io_at_def ok_def list_body_def srv_def round2_def Let_def)

text \<open>
  Claim C9. A transport failure is to become an Error record, and no exception is to
  cross the boundary of the snapshot or of \<^verbatim>\<open>get_best_server\<close>, so that one upstream's
  failure never prevents the results of the others. On the same registry the first
  upstream times out and the second answers 200 with a JSON list as body. The task of
  the first holds the Error record, as it should; but the \<^verbatim>\<open>AttributeError\<close> of the second
  leaves \<^verbatim>\<open>check_all_servers_parallel\<close> and \<^verbatim>\<open>get_best_server\<close>, and neither the Error record
  nor the Healthy records of the third and the fourth upstream are returned.
\<close>

theorem exception_crosses_the_boundary:
  "snd (run_pool registry4 schedule_timeout_list fresh_checker) ! 0 =
     Done (Inr \<lparr>sh_name = ''s1'', sh_url = ''http://h1'', health = ERROR, response_time = None,
                score = JNumber 0, status_code = None, error = Some ''timed out'',
                last_checked = 0.05\<rparr>) \<and>
   map rank (snd (run_pool registry4 schedule_timeout_list fresh_checker)) = [2, 2, 2, 2] \<and>
   fst (check_all_servers_parallel registry4 schedule_timeout_list fresh_checker) =
     Some (Inl AttributeError) \<and>
   fst (get_best_server \<lparr>servers = registry4, health_checker = fresh_checker\<rparr>
          schedule_timeout_list) = Some (Inl AttributeError)"
  by (simp add: get_best_server_def get_all_server_health_def
      check_all_servers_parallel_def run_pool_def registry4_def schedule_timeout_list_def
      schedule_of_def fresh_checker_def step.simps is_cache_valid_def probe_def session_get_def
      error_record_def io_at_def ok_def list_body_def timed_out_def srv_def round2_def Let_def)


end
